theory Spec2Isabelle
  imports Complex_Main
begin

section \<open>Python strings\<close>

text \<open>
  A Python \<^verbatim>\<open>str\<close> is a sequence of Unicode code points, and \<^verbatim>\<open>len\<close> counts code
  points. The model therefore uses lists of code points; \<open>u\<close> turns an ASCII literal into
  such a list.
\<close>

type_synonym ustring = "nat list"

definition u :: "string \<Rightarrow> ustring" where
  "u s = map of_char s"

text \<open>
  \<^verbatim>\<open>str.isspace\<close>, which is also what \<^verbatim>\<open>str.strip()\<close> removes and what \<^verbatim>\<open>\s\<close> matches in
  a \<^verbatim>\<open>str\<close> pattern (Unicode 14 tables of CPython 3.11).
\<close>

definition isspace :: "nat \<Rightarrow> bool" where
  "isspace c =
     ((9 \<le> c \<and> c \<le> 13) \<or> (28 \<le> c \<and> c \<le> 32) \<or> c = 133 \<or> c = 160 \<or> c = 5760 \<or>
      (8192 \<le> c \<and> c \<le> 8202) \<or> c = 8232 \<or> c = 8233 \<or> c = 8239 \<or> c = 8287 \<or> c = 12288)"

text \<open>\<^verbatim>\<open>s.strip()\<close>: leading and trailing whitespace removed.\<close>

definition strip :: "ustring \<Rightarrow> ustring" where
  "strip s = rev (dropWhile isspace (rev (dropWhile isspace s)))"

text \<open>\<^verbatim>\<open>sep.join(xs)\<close>.\<close>

fun join :: "ustring \<Rightarrow> ustring list \<Rightarrow> ustring" where
  "join sep [] = []"
| "join sep [x] = x"
| "join sep (x # y # ys) = x @ sep @ join sep (y # ys)"

section \<open>Vector index engine: canonical embedding text\<close>

text \<open>The document metadata dictionary of \<^verbatim>\<open>embedding_and_save.py\<close> (the key
  \<^verbatim>\<open>keywords\<close> is the field \<open>keywords_lst\<close>).\<close>

record doc_meta =
  file_name :: ustring
  file_path :: ustring
  keywords_lst :: "ustring list"
  summary :: ustring

text \<open>
  \<^verbatim>\<open>build_text_for_embedding\<close>:
  \<^verbatim>\<open>
    keywords = [kw.strip() for kw in keywords if kw.strip()]
    keywords = keywords[:(min(len(keywords), 5))]
    keywords_str = ', '.join(keywords) if keywords else ''
    file_name_str = file_name.split('.')[0]  # remove file extension for cleaner text
    return f"passage: {file_name_str} - {keywords_str} - {summary}"
  \<close>
  \<^verbatim>\<open>split('.')[0]\<close> is the part of the name before its first dot (the whole name when it
  has none).
\<close>

definition clean_keywords :: "ustring list \<Rightarrow> ustring list" where
  "clean_keywords kws = take (min (length (filter (\<lambda>kw. strip kw \<noteq> []) kws)) 5)
     (map strip (filter (\<lambda>kw. strip kw \<noteq> []) kws))"

definition build_text_for_embedding :: "doc_meta \<Rightarrow> ustring" where
  "build_text_for_embedding metadata_dict =
     (let keywords_str = join (u '', '') (clean_keywords (keywords_lst metadata_dict));
          file_name_str = takeWhile (\<lambda>c. c \<noteq> 46) (file_name metadata_dict)
      in u ''passage: '' @ file_name_str @ u '' - '' @ keywords_str @ u '' - ''
           @ summary metadata_dict)"

section \<open>Line classifier: whitespace normaliser\<close>

text \<open>
  \<^verbatim>\<open>clean_whitespace\<close> of \<^verbatim>\<open>parse_doc_utils.py\<close>:
  \<^verbatim>\<open>
    def should_keep_space(s, idx):
        if s[idx] != ' ': return True
        prev_char = s[idx - 1] if idx > 0 else ''
        next_char = s[idx + 1] if idx + 1 < len(s) else ''
        prev_is_english = prev_char.isascii() and prev_char.isalpha()
        next_is_english = next_char.isascii() and next_char.isalpha()
        return prev_is_english or next_is_english

    new_line = line.strip()
    new_line = ''.join(c if c != ' ' or should_keep_space(new_line, i) else ''
                       for i, c in enumerate(new_line))
    new_line = re.sub(r' +', ' ', new_line)
  \<close>
  A missing neighbour is the empty string, for which \<^verbatim>\<open>isalpha\<close> is false; for one
  character, \<^verbatim>\<open>isascii() and isalpha()\<close> holds exactly for the letters A-Z and a-z.
  \<open>filtered_char\<close> is one element of the generator, \<open>sub_spaces\<close> is
  \<^verbatim>\<open>re.sub(r' +', ' ', _)\<close>: every maximal run of spaces becomes one space.
\<close>

definition is_english :: "nat option \<Rightarrow> bool" where
  "is_english oc = (case oc of None \<Rightarrow> False | Some c \<Rightarrow> (65 \<le> c \<and> c \<le> 90) \<or> (97 \<le> c \<and> c \<le> 122))"

definition should_keep_space :: "ustring \<Rightarrow> nat \<Rightarrow> bool" where
  "should_keep_space s idx =
     (if s ! idx \<noteq> 32 then True
      else let prev_char = (if idx > 0 then Some (s ! (idx - 1)) else None);
               next_char = (if idx + 1 < length s then Some (s ! (idx + 1)) else None)
           in is_english prev_char \<or> is_english next_char)"

function sub_spaces :: "ustring \<Rightarrow> ustring" where
  "sub_spaces [] = []"
| "sub_spaces (c # cs) =
     (if c = 32 then 32 # sub_spaces (dropWhile (\<lambda>x. x = 32) cs) else c # sub_spaces cs)"
  by pat_completeness auto
termination
  by (relation "measure length") (auto simp: length_dropWhile_le less_Suc_eq_le)

definition filtered_char :: "ustring \<Rightarrow> nat \<Rightarrow> ustring" where
  "filtered_char new_line i =
     (if new_line ! i \<noteq> 32 \<or> should_keep_space new_line i then [new_line ! i] else [])"

definition clean_whitespace :: "ustring \<Rightarrow> ustring" where
  "clean_whitespace line =
     (let new_line = strip line;
          new_line2 = concat (map (filtered_char new_line) [0..<length new_line])
      in sub_spaces new_line2)"

subsection \<open>Auxiliary notions for the proofs about the normaliser\<close>

text \<open>
  \<open>keep p s\<close> is the space filter written as a recursion that carries the previous
  character \<open>p\<close>; \<open>good p s\<close> says that every space of \<open>s\<close> has an ASCII letter
  next to it; \<open>ends_ok s\<close> says that \<open>s\<close> neither starts nor ends with whitespace.
\<close>

definition head :: "ustring \<Rightarrow> nat option" where
  "head s = (case s of [] \<Rightarrow> None | d # _ \<Rightarrow> Some d)"

fun keep :: "nat option \<Rightarrow> ustring \<Rightarrow> ustring" where
  "keep p [] = []"
| "keep p (c # cs) =
     (if c \<noteq> 32 \<or> is_english p \<or> is_english (head cs) then c # keep (Some c) cs
      else keep (Some c) cs)"

fun good :: "nat option \<Rightarrow> ustring \<Rightarrow> bool" where
  "good p [] = True"
| "good p (c # cs) = ((c \<noteq> 32 \<or> is_english p \<or> is_english (head cs)) \<and> good (Some c) cs)"

definition ends_ok :: "ustring \<Rightarrow> bool" where
  "ends_ok r = (r = [] \<or> (\<not> isspace (hd r) \<and> \<not> isspace (last r)))"

section \<open>Regular expressions of the \<^verbatim>\<open>re\<close> module\<close>

text \<open>
  \<^verbatim>\<open>\d\<close> in a \<^verbatim>\<open>str\<close> pattern matches every Unicode decimal digit (category Nd, the
  characters for which \<^verbatim>\<open>str.isdecimal\<close> holds); the table is the one of Unicode 14
  (CPython 3.11): the block U+1D7CE..U+1D7FF and sixty-one runs of ten digits, of which the
  ASCII run is tested first.
\<close>

definition isdecimal :: "nat \<Rightarrow> bool" where
  "isdecimal c =
     (if c < 128 then 48 \<le> c \<and> c \<le> 57
      else if 120782 \<le> c \<and> c \<le> 120831 then True
      else list_ex (\<lambda>z. z \<le> c \<and> c \<le> z + 9)
        [1632, 1776, 1984, 2406, 2534, 2662, 2790, 2918, 3046, 3174, 3302, 3430, 3558, 3664,
         3792, 3872, 4160, 4240, 6112, 6160, 6470, 6608, 6784, 6800, 6992, 7088, 7232, 7248,
         42528, 43216, 43264, 43472, 43504, 43600, 44016, 65296, 66720, 68912, 69734, 69872,
         69942, 70096, 70384, 70736, 70864, 71248, 71360, 71472, 71904, 72016, 72784, 73040,
         73120, 92768, 92864, 93008, 123200, 123632, 125264, 130032])"

text \<open>
  Under \<^verbatim>\<open>re.IGNORECASE\<close> a pattern character \<open>c\<close> matches \<open>x\<close> when the simple lower-case
  mappings agree, or \<open>x\<close> is one of the extra equivalents of the lower-cased \<open>c\<close>: for the
  ASCII letters these are dotless i (U+0131) for \<open>i\<close> and long s (U+017F) for \<open>s\<close>.
  \<open>tolower\<close> is the simple lower-case mapping on the code points that it sends to an
  ASCII letter (A-Z, U+0130 and the Kelvin sign U+212A); every other code point is mapped
  outside ASCII by Unicode, which is all that matching against the ASCII letters and the
  caseless characters of the patterns below depends on.
\<close>

definition tolower :: "nat \<Rightarrow> nat" where
  "tolower c = (if 65 \<le> c \<and> c \<le> 90 then c + 32 else if c = 304 then 105
                else if c = 8490 then 107 else c)"

text \<open>
  The patterns of the repository use characters and character classes, concatenation,
  \<^verbatim>\<open>?\<close>, \<^verbatim>\<open>*\<close>, \<^verbatim>\<open>+\<close>, bounded repetition and \<^verbatim>\<open>$\<close>. \<open>rmatch r s\<close> lists what is left of
  \<open>s\<close> after each way of matching \<open>r\<close> at its start. The callers only test whether
  \<^verbatim>\<open>re.match\<close> or \<^verbatim>\<open>re.search\<close> found a match, which does not depend on the order in which
  the backtracking matcher tries the alternatives. An iteration of \<^verbatim>\<open>*\<close> that consumes
  nothing is not repeated. \<^verbatim>\<open>$\<close> matches at the end of the string and before a newline
  that ends it. \<^verbatim>\<open>re.match\<close> starts at position 0, where a leading \<^verbatim>\<open>^\<close> always holds, so
  \<^verbatim>\<open>^\<close> is left out of the patterns given to \<open>re_match\<close>; \<^verbatim>\<open>re.search\<close> tries every
  start position from the left.
\<close>

datatype rx = Eps | Atom "nat \<Rightarrow> bool" | Seq rx rx | Alt rx rx | Star rx | Eol

fun rmatch :: "rx \<Rightarrow> ustring \<Rightarrow> ustring list" where
  "rmatch Eps s = [s]"
| "rmatch (Atom p) s = (case s of [] \<Rightarrow> [] | c # cs \<Rightarrow> if p c then [cs] else [])"
| "rmatch (Seq a b) s = concat (map (rmatch b) (rmatch a s))"
| "rmatch (Alt a b) s = rmatch a s @ rmatch b s"
| "rmatch (Star a) s =
     s # concat (map (rmatch (Star a)) (filter (\<lambda>t. length t < length s) (rmatch a s)))"
| "rmatch Eol s = (if s = [] \<or> s = [10] then [s] else [])"

definition re_match :: "rx \<Rightarrow> ustring \<Rightarrow> bool" where
  "re_match r s = (rmatch r s \<noteq> [])"

fun re_search :: "rx \<Rightarrow> ustring \<Rightarrow> bool" where
  "re_search r [] = re_match r []"
| "re_search r (c # cs) = (if re_match r (c # cs) then True else re_search r cs)"

text \<open>
  Atoms: a literal character, a literal under \<^verbatim>\<open>re.IGNORECASE\<close>, \<^verbatim>\<open>.\<close> (anything but a
  newline), \<^verbatim>\<open>\d\<close>, \<^verbatim>\<open>\s\<close>; then \<^verbatim>\<open>r+\<close>, \<^verbatim>\<open>r?\<close>, \<^verbatim>\<open>r{n}\<close> (\<open>Rep\<close>), zero to \<open>n\<close> copies of
  \<open>r\<close> (\<open>UpTo\<close>, so that \<^verbatim>\<open>r{1,5}\<close> is \<open>Seq r (UpTo 4 r)\<close>) and a literal string.
\<close>

definition Chr :: "nat \<Rightarrow> rx" where "Chr c = Atom (\<lambda>x. x = c)"
definition ChrI :: "nat \<Rightarrow> rx" where
  "ChrI c = Atom (\<lambda>x. tolower x = tolower c \<or> (tolower c = 105 \<and> x = 305) \<or> (tolower c = 115 \<and> x = 383))"
definition Dot :: rx where "Dot = Atom (\<lambda>x. x \<noteq> 10)"
definition Digit :: rx where "Digit = Atom isdecimal"
definition Space :: rx where "Space = Atom isspace"
definition Plus :: "rx \<Rightarrow> rx" where "Plus r = Seq r (Star r)"
definition Opt :: "rx \<Rightarrow> rx" where "Opt r = Alt r Eps"

fun Rep :: "nat \<Rightarrow> rx \<Rightarrow> rx" where
  "Rep n r = (if n = 0 then Eps else Seq r (Rep (n - 1) r))"

fun UpTo :: "nat \<Rightarrow> rx \<Rightarrow> rx" where
  "UpTo n r = (if n = 0 then Eps else Alt (Seq r (UpTo (n - 1) r)) Eps)"

declare Rep.simps [simp del] UpTo.simps [simp del]

fun Str :: "(nat \<Rightarrow> rx) \<Rightarrow> ustring \<Rightarrow> rx" where
  "Str f [] = Eps"
| "Str f (c # cs) = Seq (f c) (Str f cs)"

section \<open>Line classifier\<close>

text \<open>
  \<^verbatim>\<open>parse_doc_utils.py\<close>; every pattern is searched with \<^verbatim>\<open>flags=re.IGNORECASE\<close>:
  \<^verbatim>\<open>
    REMOVE_PATTERNS = [r"<U+7B2C>?\s*\d{1,3}\s*<U+9875>", r"Page\s*\d+", r"\d+\s*/\s*\d+", r"<U+7248><U+6743><U+6240><U+6709>.*",
                       r"<U+4FDD><U+5BC6>.*", r"Confidential.*", r"<U+514D><U+8D23><U+58F0><U+660E>.*", ]
  \<close>
  where \<^verbatim>\<open><U+...>\<close> stands for the character with that code point.
\<close>

definition REMOVE_PATTERNS :: "rx list" where
  "REMOVE_PATTERNS =
    [Seq (Opt (ChrI 31532)) (Seq (Star Space) (Seq (Seq Digit (UpTo 2 Digit)) (Seq (Star Space) (ChrI 39029)))),
     Seq (Str ChrI (u ''Page'')) (Seq (Star Space) (Plus Digit)),
     Seq (Plus Digit) (Seq (Star Space) (Seq (ChrI 47) (Seq (Star Space) (Plus Digit)))),
     Seq (Str ChrI [29256, 26435, 25152, 26377]) (Star Dot),
     Seq (Str ChrI [20445, 23494]) (Star Dot),
     Seq (Str ChrI (u ''Confidential'')) (Star Dot),
     Seq (Str ChrI [20813, 36131, 22768, 26126]) (Star Dot)]"

text \<open>
  \<^verbatim>\<open>
    def is_catalog_line(line):
        line = line.strip()
        if len(line) < 10: return False
        if re.search(r"[<U+00B7><U+2022>\.<U+30FB>\s]{6,}", line):
            if re.search(r"[ixv\d]{1,5}$", line, re.IGNORECASE): return True
        if re.match(r"^\d+(\.\d+)*\s", line): return True
        return False
  \<close>
  \<open>seps\<close> is the class of the first pattern (U+00B7, U+2022, the dot, U+30FB and
  whitespace), \<open>roman_or_digit\<close> the class of the second under \<^verbatim>\<open>re.IGNORECASE\<close>.
\<close>

definition seps :: "nat \<Rightarrow> bool" where
  "seps x = (x = 183 \<or> x = 8226 \<or> x = 46 \<or> x = 12539 \<or> isspace x)"

definition roman_or_digit :: "nat \<Rightarrow> bool" where
  "roman_or_digit x = (tolower x = 105 \<or> tolower x = 305 \<or> tolower x = 120 \<or> tolower x = 118 \<or> isdecimal x)"

definition is_catalog_line :: "ustring \<Rightarrow> bool" where
  "is_catalog_line line0 =
     (let line = strip line0 in
      if length line < 10 then False
      else if (if re_search (Seq (Rep 6 (Atom seps)) (Star (Atom seps))) line
               then re_search (Seq (Seq (Atom roman_or_digit) (UpTo 4 (Atom roman_or_digit))) Eol) line
               else False) then True
      else if re_match (Seq (Plus Digit) (Seq (Star (Seq (Chr 46) (Plus Digit))) Space)) line then True
      else False)"

text \<open>
  \<^verbatim>\<open>
    def check_line_validity(line, min_line_len=2):
        line = line.strip()
        if len(line) <= min_line_len: return False
        elif re.match(r'^[\d\s<U+3002><U+FF0C><U+FF01><U+2014><U+2014>\.\,\=\-\%\&\^\#\@\!\*\(\)\+\_]+$', line): return False
        elif is_catalog_line(line): return False
        elif any(re.search(pat, line, flags=re.IGNORECASE) for pat in REMOVE_PATTERNS):
            return False
        else: return True
  \<close>
  \<open>punct_class\<close> is the character class of the second test; its non-ASCII members are
  U+3002, U+FF0C, U+FF01 and U+2014.
\<close>

definition punct_class :: "nat \<Rightarrow> bool" where
  "punct_class x = (isdecimal x \<or> isspace x \<or> x \<in> set ([12290, 65292, 65281, 8212, 8212] @ u ''.,=-%&^#@!*()+_''))"

definition check_line_validity :: "ustring \<Rightarrow> nat \<Rightarrow> bool" where
  "check_line_validity line0 min_line_len =
     (let line = strip line0 in
      if length line \<le> min_line_len then False
      else if re_match (Seq (Plus (Atom punct_class)) Eol) line then False
      else if is_catalog_line line then False
      else if list_ex (\<lambda>pat. re_search pat line) REMOVE_PATTERNS then False
      else True)"

section \<open>Slide header extractor\<close>

text \<open>
  The classification loop of \<^verbatim>\<open>parse_ppt_to_get_headers\<close> (\<^verbatim>\<open>parse_ppt.py\<close>) for one
  slide:
  \<^verbatim>\<open>
    shape_texts.sort(key=lambda x: x['top'])
    for i, item in enumerate(shape_texts):
        text = item['text']
        is_header = False
        if i <= min_header_rank:
            if item['font_size'] >= min_header_fontsize:
                is_header = True
        elif re.match(r'^\d+[\.\s]', text):
            is_header = True
        elif text.startswith(('<U+2022> ', '- ', '<U+25E6> ', '<U+25AA> ')):
            is_header = True
        if is_header:
            slide_headers.append(text)
  \<close>
  An entry of \<^verbatim>\<open>shape_texts\<close> is the record \<open>shape_text\<close>; its keys \<^verbatim>\<open>text\<close> and \<^verbatim>\<open>top\<close>
  are the fields \<open>para_text\<close> and \<open>para_top\<close>. Font sizes are points (a float, or the
  integer default 10), the two thresholds are integers. \<^verbatim>\<open>list.sort\<close> is stable, as is
  \<open>sort_key\<close>; \<^verbatim>\<open>enumerate\<close> counts from 0.
\<close>

record shape_text =
  para_text :: ustring
  para_top :: int
  font_size :: real

definition startswith :: "ustring \<Rightarrow> ustring \<Rightarrow> bool" where
  "startswith s prefix = (take (length prefix) s = prefix)"

definition numbered_prefix :: rx where
  "numbered_prefix = Seq (Plus Digit) (Atom (\<lambda>x. x = 46 \<or> isspace x))"

definition bullet_prefixes :: "ustring list" where
  "bullet_prefixes = [[8226, 32], [45, 32], [9702, 32], [9642, 32]]"

definition is_header :: "int \<Rightarrow> int \<Rightarrow> nat \<Rightarrow> shape_text \<Rightarrow> bool" where
  "is_header min_header_fontsize min_header_rank i item =
     (if int i \<le> min_header_rank
      then (if font_size item \<ge> real_of_int min_header_fontsize then True else False)
      else if re_match numbered_prefix (para_text item) then True
      else if list_ex (startswith (para_text item)) bullet_prefixes then True
      else False)"

definition slide_headers :: "int \<Rightarrow> int \<Rightarrow> shape_text list \<Rightarrow> ustring list" where
  "slide_headers min_header_fontsize min_header_rank shape_texts =
     map (\<lambda>(i, item). para_text item)
       (filter (\<lambda>(i, item). is_header min_header_fontsize min_header_rank i item)
          (enumerate 0 (sort_key para_top shape_texts)))"

subsection \<open>The classification with ranks counted from 1\<close>

text \<open>
  For comparison with \<open>is_header\<close>: the rule in which the first paragraph of the sorted
  list has rank 1, the font test applies to the ranks up to \<open>min_header_rank\<close>, and a later
  paragraph is a header when its text has a numbered prefix or starts with one of the four
  bullet glyphs (with or without a space after it).
\<close>

definition bullet_glyphs :: "nat list" where
  "bullet_glyphs = [8226, 45, 9702, 9642]"

definition ranked_is_header :: "int \<Rightarrow> int \<Rightarrow> nat \<Rightarrow> shape_text \<Rightarrow> bool" where
  "ranked_is_header min_header_fontsize min_header_rank rank item =
     ((int rank \<le> min_header_rank \<and> font_size item \<ge> real_of_int min_header_fontsize) \<or>
      (int rank > min_header_rank \<and>
       (re_match numbered_prefix (para_text item) \<or>
        list_ex (\<lambda>g. startswith (para_text item) [g]) bullet_glyphs)))"

definition ranked_slide_headers :: "int \<Rightarrow> int \<Rightarrow> shape_text list \<Rightarrow> ustring list" where
  "ranked_slide_headers min_header_fontsize min_header_rank shape_texts =
     map (\<lambda>(rank, item). para_text item)
       (filter (\<lambda>(rank, item). ranked_is_header min_header_fontsize min_header_rank rank item)
          (enumerate 1 (sort_key para_top shape_texts)))"

subsection \<open>Example slides\<close>

definition para :: "ustring \<Rightarrow> int \<Rightarrow> real \<Rightarrow> shape_text" where
  "para t y f = \<lparr>para_text = t, para_top = y, font_size = f\<rparr>"

text \<open>Five paragraphs, all of size 20, and a slide given out of vertical order.\<close>

definition slide_all_large :: "shape_text list" where
  "slide_all_large =
     [para (u ''Roadmap'') 10 20, para (u ''Goals for the year'') 20 20,
      para (u ''Markets'') 30 20, para (u ''Products'') 40 20, para (u ''Summary'') 50 20]"

definition slide_unsorted :: "shape_text list" where
  "slide_unsorted =
     [para (u ''2. Plan'') 50 10, para (u ''first item'') 30 10,
      para (u ''Roadmap'') 10 20, para (u ''second item'') 40 10,
      para (u ''Goals for the year'') 20 20]"

definition bullet_without_space :: shape_text where
  "bullet_without_space = para ([8226] @ u ''Item'') 50 10"

section \<open>Summarization pipeline\<close>

subsection \<open>The text-generation collaborator and the retry loop\<close>

text \<open>
  \<^verbatim>\<open>call_ollama_for_summarization\<close> posts the prompt and returns a string in every case:
  \<^verbatim>\<open>
    try:
        response = requests.post(ollama_url, json=payload)
        result = response.json()
        output_text = result.get("response", "").strip()
        return output_text
    except requests.RequestException as e:
        return "http_request_error"
    except Exception as e:
        return "unknown_ollama_error"
  \<close>
  What the collaborator does in one call is an \<open>ollama_outcome\<close>: the text of the
  \<^verbatim>\<open>response\<close> field (the empty string when the field is absent), a failure of the
  request (\<^verbatim>\<open>requests.RequestException\<close>, the transport-level failures), or any other
  exception.
\<close>

datatype ollama_outcome = Response ustring | RequestException | OtherException

definition call_ollama_for_summarization :: "ollama_outcome \<Rightarrow> ustring" where
  "call_ollama_for_summarization outcome =
     (case outcome of
        Response r \<Rightarrow> strip r
      | RequestException \<Rightarrow> u ''http_request_error''
      | OtherException \<Rightarrow> u ''unknown_ollama_error'')"

text \<open>
  The loop of \<^verbatim>\<open>summarize_file_by_llm\<close>:
  \<^verbatim>\<open>
    max_retries = 3
    retry_count = 0
    while retry_count < max_retries:
        llm_output = call_ollama_for_summarization(prompt, ...)
        if llm_output and len(llm_output) >= 100:
            break
        retry_count += 1
  \<close>
  The prompt is the same in every call; \<open>post k\<close> is what the collaborator does in the
  call made after \<open>k\<close> earlier calls. \<open>retry_loop\<close> carries \<^verbatim>\<open>retry_count\<close>, the number of
  calls made so far and the current \<^verbatim>\<open>llm_output\<close>, and returns the final
  \<^verbatim>\<open>llm_output\<close> with the number of calls. The loop is entered with \<^verbatim>\<open>retry_count = 0\<close>,
  so \<^verbatim>\<open>llm_output\<close> is assigned before it is read; its initial value here is never
  returned.
\<close>

definition max_retries :: nat where
  "max_retries = 3"

function retry_loop :: "(nat \<Rightarrow> ollama_outcome) \<Rightarrow> nat \<Rightarrow> nat \<Rightarrow> ustring \<Rightarrow> ustring \<times> nat" where
  "retry_loop post retry_count calls llm_output =
     (if retry_count < max_retries
      then (if call_ollama_for_summarization (post calls) \<noteq> [] \<and>
               length (call_ollama_for_summarization (post calls)) \<ge> 100
            then (call_ollama_for_summarization (post calls), calls + 1)
            else retry_loop post (retry_count + 1) (calls + 1)
                   (call_ollama_for_summarization (post calls)))
      else (llm_output, calls))"
  by pat_completeness auto
termination
  by (relation "measure (\<lambda>(post, retry_count, calls, llm_output). max_retries - retry_count)")
    auto

declare retry_loop.simps [simp del]

definition llm_loop :: "(nat \<Rightarrow> ollama_outcome) \<Rightarrow> ustring \<times> nat" where
  "llm_loop post = retry_loop post 0 0 []"

subsection \<open>Parsing the response\<close>

text \<open>
  \<^verbatim>\<open>re.search(r'\{.*\}', llm_output, re.DOTALL)\<close>: the search starts at the first
  \<^verbatim>\<open>{\<close>; with \<^verbatim>\<open>re.DOTALL\<close> the greedy \<^verbatim>\<open>.*\<close> runs to the end of the text and gives back
  characters until a \<^verbatim>\<open>}\<close> follows, which is the last \<^verbatim>\<open>}\<close> of the text. A text with no
  \<^verbatim>\<open>}\<close> after its first \<^verbatim>\<open>{\<close> has no match. \<open>search_braces\<close> is \<^verbatim>\<open>match.group()\<close>.
\<close>

definition search_braces :: "ustring \<Rightarrow> ustring option" where
  "search_braces s =
     (let t = dropWhile (\<lambda>c. c \<noteq> 123) s
      in if 125 \<in> set t then Some (rev (dropWhile (\<lambda>c. c \<noteq> 125) (rev t))) else None)"

text \<open>
  The values of \<^verbatim>\<open>json.loads\<close>; an object is the list of the items of its
  \<^verbatim>\<open>dict\<close>, with distinct keys. The exceptions that the statements after the search can
  raise are \<open>exn\<close>.
\<close>

datatype json = JNull | JBool bool | JNum real | JStr ustring | JList "json list"
  | JObject "(ustring \<times> json) list"

datatype exn = KeyError | TypeError | JSONDecodeError | AttributeError

text \<open>\<^verbatim>\<open>info[key]\<close> for a string key, \<^verbatim>\<open>v.strip()\<close> and \<^verbatim>\<open>len(v)\<close> on a JSON value.\<close>

fun getitem :: "json \<Rightarrow> ustring \<Rightarrow> exn + json" where
  "getitem (JObject items) key =
     (case map_of items key of None \<Rightarrow> Inl KeyError | Some v \<Rightarrow> Inr v)"
| "getitem _ key = Inl TypeError"

fun str_strip :: "json \<Rightarrow> exn + ustring" where
  "str_strip (JStr s) = Inr (strip s)"
| "str_strip _ = Inl AttributeError"

fun py_len :: "json \<Rightarrow> exn + nat" where
  "py_len (JStr s) = Inr (length s)"
| "py_len (JList xs) = Inr (length xs)"
| "py_len (JObject items) = Inr (length items)"
| "py_len _ = Inl TypeError"

text \<open>
  \<^verbatim>\<open>str.replace(old, new)\<close>: the occurrences of \<^verbatim>\<open>old\<close> are replaced from left to right
  without overlap; an empty \<^verbatim>\<open>old\<close> occurs before every character and at the end.
\<close>

function replace_ne :: "ustring \<Rightarrow> ustring \<Rightarrow> ustring \<Rightarrow> ustring" where
  "replace_ne [] old new = []"
| "replace_ne (c # cs) old new =
     (if take (length old) (c # cs) = old
      then new @ replace_ne (drop (length old - 1) cs) old new
      else c # replace_ne cs old new)"
  by pat_completeness auto
termination
  by (relation "measure (\<lambda>(s, old, new). length s)") auto

definition replace :: "ustring \<Rightarrow> ustring \<Rightarrow> ustring \<Rightarrow> ustring" where
  "replace s old new =
     (if old = [] then new @ concat (map (\<lambda>c. c # new) s) else replace_ne s old new)"

text \<open>
  The rest of \<^verbatim>\<open>summarize_file_by_llm\<close>:
  \<^verbatim>\<open>
    if llm_output in ["http_request_error", "unknown_ollama_error"]:
        return llm_output, None, None
    match = re.search(r'\{.*\}', llm_output, re.DOTALL)
    if not match:
        return "json_parse_error", None, None
    json_str = match.group()
    info = json.loads(json_str)
    try:
        summary = info["summary"].strip()
        keywords = info["keywords"]
        summary = summary.replace(file_name, "").strip()
        if len(summary) < 50 or len(keywords) < 1:
            return "invalid_output_error", None, None
    except (KeyError, TypeError, json.JSONDecodeError):
        return "json_parse_error", None, None
    return "valid_output", keywords, summary
  \<close>
  \<open>try_body\<close> is the body of the \<^verbatim>\<open>try\<close> statement together with the final \<^verbatim>\<open>return\<close>
  (which raises nothing); \<open>Inl\<close> is a raised exception. \<^verbatim>\<open>json.loads\<close> is the parameter
  \<open>json_loads\<close>, \<open>None\<close> being \<^verbatim>\<open>json.JSONDecodeError\<close>; the argument
  \<^verbatim>\<open>file_name\<close> is \<open>fname\<close>.
\<close>

type_synonym summarize_result = "ustring \<times> json option \<times> ustring option"

definition try_body :: "ustring \<Rightarrow> json \<Rightarrow> exn + summarize_result" where
  "try_body fname info =
     (case getitem info (u ''summary'') of Inl e \<Rightarrow> Inl e | Inr v \<Rightarrow>
      (case str_strip v of Inl e \<Rightarrow> Inl e | Inr summary0 \<Rightarrow>
       (case getitem info (u ''keywords'') of Inl e \<Rightarrow> Inl e | Inr keywords \<Rightarrow>
        (let summary = strip (replace summary0 fname [])
         in if length summary < 50 then Inr (u ''invalid_output_error'', None, None)
            else (case py_len keywords of Inl e \<Rightarrow> Inl e | Inr n \<Rightarrow>
              if n < 1 then Inr (u ''invalid_output_error'', None, None)
              else Inr (u ''valid_output'', Some keywords, Some summary))))))"

definition summarize_file_by_llm ::
  "(nat \<Rightarrow> ollama_outcome) \<Rightarrow> (ustring \<Rightarrow> json option) \<Rightarrow> ustring \<Rightarrow> exn + summarize_result" where
  "summarize_file_by_llm post json_loads fname =
     (let llm_output = fst (llm_loop post)
      in if llm_output \<in> set [u ''http_request_error'', u ''unknown_ollama_error'']
         then Inr (llm_output, None, None)
         else (case search_braces llm_output of
            None \<Rightarrow> Inr (u ''json_parse_error'', None, None)
          | Some json_str \<Rightarrow>
             (case json_loads json_str of
                None \<Rightarrow> Inl JSONDecodeError
              | Some info \<Rightarrow>
                 (case try_body fname info of
                    Inr r \<Rightarrow> Inr r
                  | Inl e \<Rightarrow>
                     if e \<in> set [KeyError, TypeError, JSONDecodeError]
                     then Inr (u ''json_parse_error'', None, None)
                     else Inl e))))"

subsection \<open>The first top-level JSON object of a text\<close>



subsection \<open>Example collaborators\<close>

text \<open>
  A collaborator whose every call fails at the transport level, a response of 127
  characters, and a collaborator whose first call fails at the transport level and whose
  later calls give that response.
\<close>

definition transport_down :: "nat \<Rightarrow> ollama_outcome" where
  "transport_down k = RequestException"

definition sample_response :: ustring where
  "sample_response =
     u ''{\"keywords\": [\"revenue\", \"stores\"], \"summary\": \"Quarterly revenue grew by twelve percent because new stores were opened in the region.\"}''"

definition fails_once :: "nat \<Rightarrow> ollama_outcome" where
  "fails_once k = (if k = 0 then RequestException else Response sample_response)"

subsection \<open>Example responses\<close>




definition summary_only :: ustring where
  "summary_only = u ''{\"summary\": \"Quarterly revenue grew by twelve percent because new stores were opened in the region.\"}''"


definition sample_summary :: ustring where
  "sample_summary =
     u ''Quarterly revenue grew by twelve percent because new stores were opened in the region.''"

definition sample_json_loads :: "ustring \<Rightarrow> json option" where
  "sample_json_loads json_str =
     (if json_str = sample_response
      then Some (JObject [(u ''keywords'', JList [JStr (u ''revenue''), JStr (u ''stores'')]),
                          (u ''summary'', JStr sample_summary)])
      else if json_str = summary_only
      then Some (JObject [(u ''summary'', JStr sample_summary)])
      else None)"

section \<open>Properties of the canonical embedding text\<close>

text \<open>
  C7. The canonical text is \<^verbatim>\<open>"passage: "\<close>, the file name without its extension,
  \<^verbatim>\<open>" - "\<close>, at most five cleaned keywords joined by commas, \<^verbatim>\<open>" - "\<close> and the summary.
  The code takes the part of the file name before its \<^emph>\<open>first\<close> dot, although its own
  comment says that it removes the file extension: for \<^verbatim>\<open>report.v2.pdf\<close> the text is built
  from \<^verbatim>\<open>report\<close>, not from the stem \<^verbatim>\<open>report.v2\<close>.
\<close>

theorem build_text_for_embedding_multi_dot:
  "build_text_for_embedding
     \<lparr>file_name = u ''report.v2.pdf'', file_path = u ''/docs/report.v2.pdf'',
      keywords_lst = [u '' sales '', u '''', u ''growth''], summary = u ''Quarterly figures''\<rparr>
   = u ''passage: report - sales, growth - Quarterly figures''"
  by (simp add: build_text_for_embedding_def clean_keywords_def strip_def isspace_def u_def)

section \<open>Properties of the whitespace normaliser\<close>

lemma head_simps [simp]: "head [] = None" "head (d # ds) = Some d"
  by (simp_all add: head_def)

lemma is_english_simps [simp]: "\<not> is_english None" "\<not> is_english (Some 32)"
  by (simp_all add: is_english_def)

lemma isspace_32 [simp]: "isspace 32"
  by (simp add: isspace_def)

lemma is_english_not_space: "is_english (Some c) \<Longrightarrow> c \<noteq> 32"
  by (auto simp: is_english_def)

lemma filtered_char_at:
  "filtered_char (pre @ c # cs) (length pre)
   = (if c \<noteq> 32 \<or> is_english (if pre = [] then None else Some (last pre)) \<or> is_english (head cs)
      then [c] else [])"
proof -
  have at: "(pre @ c # cs) ! length pre = c"
    by simp
  have prev: "(if length pre > 0 then Some ((pre @ c # cs) ! (length pre - 1)) else None)
      = (if pre = [] then None else Some (last pre))"
    by (cases pre rule: rev_cases) (simp_all add: nth_append)
  have nxt: "(if length pre + 1 < length (pre @ c # cs)
              then Some ((pre @ c # cs) ! (length pre + 1)) else None) = head cs"
    by (cases cs) (simp_all add: nth_append)
  show ?thesis
    unfolding filtered_char_def should_keep_space_def at prev nxt Let_def by auto
qed

lemma filter_keep_aux:
  "concat (map (filtered_char (pre @ s)) [length pre..<length pre + length s])
   = keep (if pre = [] then None else Some (last pre)) s"
proof (induction s arbitrary: pre)
  case Nil
  show ?case by simp
next
  case (Cons c cs)
  have idx: "[length pre..<length pre + length (c # cs)]
      = length pre # [length (pre @ [c])..<length (pre @ [c]) + length cs]"
    by (simp add: upt_rec)
  have eq: "(pre @ [c]) @ cs = pre @ c # cs"
    by simp
  have rest: "concat (map (filtered_char (pre @ c # cs))
                 [length (pre @ [c])..<length (pre @ [c]) + length cs]) = keep (Some c) cs"
    using Cons.IH [of "pre @ [c]"] unfolding eq by simp
  show ?case
    unfolding idx list.map concat.simps rest filtered_char_at by simp
qed

lemma filter_keep: "concat (map (filtered_char s) [0..<length s]) = keep None s"
  using filter_keep_aux [of "[]" s] by simp

lemma clean_whitespace_keep: "clean_whitespace line = sub_spaces (keep None (strip line))"
  by (simp add: clean_whitespace_def Let_def filter_keep)

lemma good_keep_id: "good p s \<Longrightarrow> keep p s = s"
  by (induction s arbitrary: p) auto

lemma good_weaken: "\<not> is_english q \<Longrightarrow> good q r \<Longrightarrow> good p r"
  by (cases r) auto

lemma head_keep: "is_english (head cs) \<Longrightarrow> head (keep p cs) = head cs"
  by (cases cs) (auto dest: is_english_not_space)

lemma good_keep: "good p (keep p s)"
proof (induction s arbitrary: p)
  case Nil
  show ?case by simp
next
  case (Cons c cs)
  show ?case
  proof (cases "c \<noteq> 32 \<or> is_english p \<or> is_english (head cs)")
    case True
    then show ?thesis using Cons.IH [of "Some c"] by (auto simp: head_keep)
  next
    case False
    then have "c = 32" by simp
    then show ?thesis using False Cons.IH [of "Some c"] good_weaken [of "Some 32"] by auto
  qed
qed

lemma dropWhile_sp_good: "good q r \<Longrightarrow> good q' (dropWhile (\<lambda>x. x = 32) r)"
proof (induction r arbitrary: q)
  case Nil
  show ?case by simp
next
  case (Cons c cs)
  show ?case
  proof (cases "c = 32")
    case True
    then show ?thesis using Cons.prems Cons.IH [of "Some c"] by simp
  next
    case False
    then show ?thesis using Cons.prems by simp
  qed
qed

lemma head_sub_spaces: "head r \<noteq> Some 32 \<Longrightarrow> head (sub_spaces r) = head r"
  by (cases r) auto

lemma good_sub_spaces: "good p r \<Longrightarrow> good p (sub_spaces r)"
proof (induction r arbitrary: p rule: sub_spaces.induct)
  case 1
  show ?case by simp
next
  case (2 c cs)
  show ?case
  proof (cases "c = 32")
    case True
    have g: "good (Some 32) (sub_spaces (dropWhile (\<lambda>x. x = 32) cs))"
      using "2.IH"(1) [OF True, of "Some 32"] dropWhile_sp_good [of "Some c" cs "Some 32"] "2.prems"
      by simp
    have "is_english p \<or> is_english (head (sub_spaces (dropWhile (\<lambda>x. x = 32) cs)))"
    proof (cases "is_english p")
      case True
      then show ?thesis by simp
    next
      case False
      then have e: "is_english (head cs)" using "2.prems" True by simp
      then obtain d ds where cs: "cs = d # ds" by (cases cs) auto
      with e have "d \<noteq> 32" by (auto dest: is_english_not_space)
      then show ?thesis using e cs by simp
    qed
    then show ?thesis using True g by simp
  next
    case False
    have "good (Some c) (sub_spaces cs)"
      using "2.IH"(2) [OF False, of "Some c"] "2.prems" by simp
    then show ?thesis using False by simp
  qed
qed

lemma sub_spaces_no_lead: "head y \<noteq> Some 32 \<Longrightarrow> dropWhile (\<lambda>x. x = 32) (sub_spaces y) = sub_spaces y"
  by (cases y) auto

lemma head_dropWhile_sp: "head (dropWhile (\<lambda>x. x = 32) cs) \<noteq> Some 32"
  by (induction cs) auto

lemma sub_spaces_idem: "sub_spaces (sub_spaces r) = sub_spaces r"
proof (induction r rule: sub_spaces.induct)
  case 1
  show ?case by simp
next
  case (2 c cs)
  show ?case
  proof (cases "c = 32")
    case True
    then show ?thesis
      using "2.IH"(1) [OF True] by (simp add: sub_spaces_no_lead head_dropWhile_sp)
  next
    case False
    then show ?thesis using "2.IH"(2) [OF False] by simp
  qed
qed

lemma keep_last: "s \<noteq> [] \<Longrightarrow> last s \<noteq> 32 \<Longrightarrow> keep p s \<noteq> [] \<and> last (keep p s) = last s"
proof (induction s arbitrary: p)
  case Nil
  then show ?case by simp
next
  case (Cons c cs)
  show ?case
  proof (cases "cs = []")
    case True
    then show ?thesis using Cons.prems by simp
  next
    case False
    then have "last cs \<noteq> 32" using Cons.prems by simp
    then have "keep (Some c) cs \<noteq> [] \<and> last (keep (Some c) cs) = last cs"
      using Cons.IH [OF False] by simp
    then show ?thesis using False by auto
  qed
qed

lemma keep_hd: "s \<noteq> [] \<Longrightarrow> hd s \<noteq> 32 \<Longrightarrow> hd (keep p s) = hd s"
  by (cases s) auto

lemma dropWhile_last: "dropWhile P xs \<noteq> [] \<Longrightarrow> last (dropWhile P xs) = last xs"
  by (induction xs) (auto split: if_splits)

lemma dropWhile_sp_ne: "s \<noteq> [] \<Longrightarrow> last s \<noteq> 32 \<Longrightarrow> dropWhile (\<lambda>x. x = 32) s \<noteq> []"
  by (induction s) (auto split: if_splits)

lemma sub_spaces_last:
  "s \<noteq> [] \<Longrightarrow> last s \<noteq> 32 \<Longrightarrow> sub_spaces s \<noteq> [] \<and> last (sub_spaces s) = last s"
proof (induction s rule: sub_spaces.induct)
  case 1
  then show ?case by simp
next
  case (2 c cs)
  show ?case
  proof (cases "cs = []")
    case True
    then show ?thesis using "2.prems" by simp
  next
    case False
    then have l: "last cs \<noteq> 32" using "2.prems" by simp
    show ?thesis
    proof (cases "c = 32")
      case True
      let ?d = "dropWhile (\<lambda>x. x = 32) cs"
      have ne: "?d \<noteq> []" by (rule dropWhile_sp_ne [OF False l])
      have ld: "last ?d = last cs" by (rule dropWhile_last [OF ne])
      have "sub_spaces ?d \<noteq> [] \<and> last (sub_spaces ?d) = last ?d"
        using "2.IH"(1) [OF True ne] ld l by simp
      then show ?thesis using True False ld by simp
    next
      case c: False
      then show ?thesis using "2.IH"(2) [OF c False l] False by simp
    qed
  qed
qed

lemma sub_spaces_hd: "s \<noteq> [] \<Longrightarrow> hd s \<noteq> 32 \<Longrightarrow> hd (sub_spaces s) = hd s"
  by (cases s) auto

lemma not_space_32: "\<not> isspace c \<Longrightarrow> c \<noteq> 32"
  by auto

lemma ends_ok_strip: "ends_ok (strip s)"
proof -
  let ?a = "dropWhile isspace s"
  let ?b = "dropWhile isspace (rev ?a)"
  show ?thesis
  proof (cases "?b = []")
    case True
    then show ?thesis by (simp add: ends_ok_def strip_def)
  next
    case False
    have h: "\<not> isspace (hd ?b)" by (rule hd_dropWhile [OF False])
    have ne: "?a \<noteq> []"
    proof
      assume a: "?a = []"
      have "?b = []" unfolding a by simp
      then show False using False by blast
    qed
    have ha: "\<not> isspace (hd ?a)" by (rule hd_dropWhile [OF ne])
    have "last ?b = last (rev ?a)" by (rule dropWhile_last [OF False])
    also have "\<dots> = hd ?a" using ne by (simp add: last_rev)
    finally have lb: "\<not> isspace (last ?b)" using ha by simp
    have "hd (rev ?b) = last ?b" "last (rev ?b) = hd ?b"
      using False by (simp_all add: hd_rev last_rev)
    then show ?thesis using False h lb by (simp add: ends_ok_def strip_def)
  qed
qed

lemma strip_ends_ok: "ends_ok r \<Longrightarrow> strip r = r"
proof (cases "r = []")
  case True
  then show ?thesis by (simp add: strip_def)
next
  case False
  assume "ends_ok r"
  then have h: "\<not> isspace (hd r)" and l: "\<not> isspace (last r)"
    using False by (simp_all add: ends_ok_def)
  have a: "dropWhile isspace r = r" using False h by (cases r) auto
  obtain x xs where rx: "rev r = x # xs" using False by (cases "rev r") auto
  have "hd (rev r) = last r" using False by (simp add: hd_rev)
  then have x: "\<not> isspace x" using rx l by simp
  have "dropWhile isspace (rev r) = rev r" unfolding rx using x by simp
  then show ?thesis by (simp add: strip_def a)
qed

lemma ends_ok_keep: "ends_ok s \<Longrightarrow> ends_ok (keep p s)"
proof (cases "s = []")
  case True
  then show ?thesis by (simp add: ends_ok_def)
next
  case False
  assume "ends_ok s"
  then have h: "\<not> isspace (hd s)" and l: "\<not> isspace (last s)"
    using False by (simp_all add: ends_ok_def)
  have "keep p s \<noteq> [] \<and> last (keep p s) = last s"
    using keep_last [OF False not_space_32 [OF l]] .
  moreover have "hd (keep p s) = hd s"
    using keep_hd [OF False not_space_32 [OF h]] .
  ultimately show ?thesis using h l by (simp add: ends_ok_def)
qed

lemma ends_ok_sub_spaces: "ends_ok s \<Longrightarrow> ends_ok (sub_spaces s)"
proof (cases "s = []")
  case True
  then show ?thesis by (simp add: ends_ok_def)
next
  case False
  assume "ends_ok s"
  then have h: "\<not> isspace (hd s)" and l: "\<not> isspace (last s)"
    using False by (simp_all add: ends_ok_def)
  have "sub_spaces s \<noteq> [] \<and> last (sub_spaces s) = last s"
    using sub_spaces_last [OF False not_space_32 [OF l]] .
  moreover have "hd (sub_spaces s) = hd s"
    using sub_spaces_hd [OF False not_space_32 [OF h]] .
  ultimately show ?thesis using h l by (simp add: ends_ok_def)
qed

text \<open>
  C10. The whitespace normaliser is idempotent. One application already gives a string
  on which each of its three stages is the identity: stripping (no leading or trailing
  whitespace), the space filter (every remaining space is next to an ASCII letter) and
  the collapsing of runs of spaces (no run of two or more spaces).
\<close>

theorem clean_whitespace_idempotent:
  "clean_whitespace (clean_whitespace s) = clean_whitespace s \<and>
   strip (clean_whitespace s) = clean_whitespace s \<and>
   concat (map (filtered_char (clean_whitespace s)) [0..<length (clean_whitespace s)])
     = clean_whitespace s \<and>
   sub_spaces (clean_whitespace s) = clean_whitespace s"
proof -
  let ?r = "sub_spaces (keep None (strip s))"
  have r: "clean_whitespace s = ?r"
    by (rule clean_whitespace_keep)
  have e: "ends_ok ?r"
    by (intro ends_ok_sub_spaces ends_ok_keep ends_ok_strip)
  have g: "good None ?r"
    by (intro good_sub_spaces good_keep)
  have s1: "strip ?r = ?r"
    by (rule strip_ends_ok [OF e])
  have s2: "concat (map (filtered_char ?r) [0..<length ?r]) = ?r"
    by (simp only: filter_keep good_keep_id [OF g])
  have s3: "sub_spaces ?r = ?r"
    by (rule sub_spaces_idem)
  have "clean_whitespace ?r = sub_spaces (keep None (strip ?r))"
    by (rule clean_whitespace_keep)
  also have "\<dots> = sub_spaces (keep None ?r)"
    by (simp only: s1)
  also have "\<dots> = sub_spaces ?r"
    by (simp only: good_keep_id [OF g])
  also have "\<dots> = ?r"
    by (rule s3)
  finally have "clean_whitespace ?r = ?r" .
  then show ?thesis
    unfolding r using s1 s2 s3 by simp
qed

theorem clean_whitespace_idempotent_witness:
  "clean_whitespace (clean_whitespace (u ''  Hello   World  1  2 a  ''))
     = clean_whitespace (u ''  Hello   World  1  2 a  '') \<and>
   clean_whitespace (u ''  Hello   World  1  2 a  '') = u ''Hello World 12 a'' \<and>
   clean_whitespace [20320, 22909, 32, 19990, 30028] = [20320, 22909, 19990, 30028]"
  using clean_whitespace_idempotent [of "u ''  Hello   World  1  2 a  ''"]
  by (simp add: clean_whitespace_keep strip_def isspace_def u_def is_english_def head_def)

section \<open>Properties of the line classifier\<close>

lemma list_ex_if: "list_ex P (x # xs) = (if P x then True else list_ex P xs)"
  by simp

lemmas classifier_eval = list_ex_if seps_def roman_or_digit_def check_line_validity_def
  is_catalog_line_def REMOVE_PATTERNS_def re_match_def Chr_def ChrI_def Dot_def Digit_def
  Space_def Plus_def Opt_def punct_class_def isdecimal_def isspace_def tolower_def strip_def
  u_def Let_def Rep.simps UpTo.simps

lemma invalid_page_marker: "check_line_validity (u ''Page 12'') 2 = False"
  by (simp add: classifier_eval del: list_ex_Cons_iff)

lemma invalid_chinese_page_marker: "check_line_validity [31532, 51, 39029] 2 = False"
  by (simp add: classifier_eval del: list_ex_Cons_iff)

lemma invalid_page_of_pages: "check_line_validity (u ''1/10'') 2 = False"
  by (simp add: classifier_eval del: list_ex_Cons_iff)

lemma invalid_confidential_banner:
  "check_line_validity (u ''Confidential '' @ [8212] @ u '' internal use only'') 2 = False"
  by (simp add: classifier_eval del: list_ex_Cons_iff)

lemma valid_sentence:
  "check_line_validity
     (u ''The quarterly revenue grew by 12% driven by new store openings'') 2 = True"
  by (simp add: classifier_eval del: list_ex_Cons_iff)

text \<open>
  C9. With the default minimum length 2, the classifier rejects \<^verbatim>\<open>Page 12\<close>, the line
  U+7B2C \<^verbatim>\<open>3\<close> U+9875, \<^verbatim>\<open>1/10\<close> and \<^verbatim>\<open>Confidential\<close> U+2014 \<^verbatim>\<open>internal use only\<close> (with
  an em dash), and accepts the sentence about the quarterly revenue.
\<close>

theorem check_line_validity_literals:
  "check_line_validity (u ''Page 12'') 2 = False \<and>
   check_line_validity [31532, 51, 39029] 2 = False \<and>
   check_line_validity (u ''1/10'') 2 = False \<and>
   check_line_validity (u ''Confidential '' @ [8212] @ u '' internal use only'') 2 = False \<and>
   check_line_validity
     (u ''The quarterly revenue grew by 12% driven by new store openings'') 2 = True"
  using invalid_page_marker invalid_chinese_page_marker invalid_page_of_pages
    invalid_confidential_banner valid_sentence
  by blast

theorem check_line_validity_literals_witness:
  "\<not> check_line_validity (u ''Page 12'') 2 \<and>
   check_line_validity
     (u ''The quarterly revenue grew by 12% driven by new store openings'') 2"
  using check_line_validity_literals by blast

section \<open>Properties of the slide header extractor\<close>

lemma is_header_iff:
  "is_header fs rk i item \<longleftrightarrow>
     (int i \<le> rk \<and> font_size item \<ge> real_of_int fs) \<or>
     (int i > rk \<and> (re_match numbered_prefix (para_text item) \<or>
        list_ex (startswith (para_text item)) bullet_prefixes))"
  by (auto simp: is_header_def)

lemma numbered_prefix_two: "re_match numbered_prefix (50 # 46 # 32 # rest)"
  by (simp add: numbered_prefix_def re_match_def Plus_def Digit_def isdecimal_def)

lemma startswith_two: "startswith t (u ''2. '') \<Longrightarrow> re_match numbered_prefix t"
proof -
  assume a: "startswith t (u ''2. '')"
  have e: "u ''2. '' = [50, 46, 32]" by (simp add: u_def)
  from a have "take 3 t = [50, 46, 32]"
    unfolding startswith_def e by (simp add: numeral_3_eq_3)
  then have "t = [50, 46, 32] @ drop 3 t" by (metis append_take_drop_id)
  then have "t = 50 # 46 # 32 # drop 3 t" by simp
  then show ?thesis using numbered_prefix_two[of "drop 3 t"] by simp
qed

lemma enumerate_nth: "enumerate n xs = map (\<lambda>i. (n + i, xs ! i)) [0..<length xs]"
proof (rule nth_equalityI)
  show "length (enumerate n xs) = length (map (\<lambda>i. (n + i, xs ! i)) [0..<length xs])"
    by simp
next
  fix i assume "i < length (enumerate n xs)"
  then show "enumerate n xs ! i = map (\<lambda>i. (n + i, xs ! i)) [0..<length xs] ! i"
    by (simp add: nth_enumerate_eq)
qed

lemma slide_headers_positions:
  "slide_headers fs rk ps =
     map (\<lambda>i. para_text (sort_key para_top ps ! i))
       (filter (\<lambda>i. is_header fs rk i (sort_key para_top ps ! i))
          [0..<length ps])"
  by (simp add: slide_headers_def enumerate_nth filter_map comp_def)

lemma length_five: "length ps = 5 \<Longrightarrow> \<exists>a b c d e. ps = [a, b, c, d, e]"
  by (auto simp: length_Suc_conv eval_nat_numeral)

lemma slide_headers_five:
  assumes "length ps = 5"
    and "map font_size (sort_key para_top ps) = [20, 20, 10, 10, 10]"
  shows "slide_headers 14 3 ps = map para_text (take 2 (sort_key para_top ps)) @
     (if re_match numbered_prefix (para_text (sort_key para_top ps ! 4)) \<or>
         list_ex (startswith (para_text (sort_key para_top ps ! 4))) bullet_prefixes
      then [para_text (sort_key para_top ps ! 4)] else [])"
proof -
  have "length (sort_key para_top ps) = 5" using assms(1) by simp
  from length_five[OF this] obtain a b c d e
    where s: "sort_key para_top ps = [a, b, c, d, e]" by blast
  show ?thesis using assms(2) unfolding slide_headers_def s
    by (simp add: enumerate_eq_zip upt_rec is_header_def)
qed

lemma slide_headers_later_two:
  assumes "i < length ps" "rk < int i"
    and "startswith (para_text (sort_key para_top ps ! i)) (u ''2. '')"
  shows "para_text (sort_key para_top ps ! i) \<in> set (slide_headers fs rk ps)"
proof -
  have "is_header fs rk i (sort_key para_top ps ! i)"
    using assms(2) startswith_two[OF assms(3)] by (simp add: is_header_iff)
  then show ?thesis using assms(1) unfolding slide_headers_positions by simp
qed

lemma sort_slide_unsorted:
  "sort_key para_top slide_unsorted =
     [para (u ''Roadmap'') 10 20, para (u ''Goals for the year'') 20 20,
      para (u ''first item'') 30 10, para (u ''second item'') 40 10,
      para (u ''2. Plan'') 50 10]"
  by (simp add: slide_unsorted_def para_def)

lemmas header_eval = is_header_def ranked_is_header_def numbered_prefix_def re_match_def
  Plus_def Digit_def isdecimal_def u_def startswith_def bullet_prefixes_def bullet_glyphs_def

lemma headers_slide_unsorted:
  "slide_headers 14 3 slide_unsorted = [u ''Roadmap'', u ''Goals for the year'', u ''2. Plan'']"
  unfolding slide_headers_def sort_slide_unsorted
  apply (simp add: enumerate_eq_zip upt_rec para_def)
  apply (simp add: header_eval)
  done

lemma sort_slide_all_large: "sort_key para_top slide_all_large = slide_all_large"
  by (simp add: slide_all_large_def para_def)

lemma headers_slide_all_large:
  "slide_headers 14 3 slide_all_large =
     [u ''Roadmap'', u ''Goals for the year'', u ''Markets'', u ''Products'']"
  unfolding slide_headers_def sort_slide_all_large
  apply (simp add: slide_all_large_def enumerate_eq_zip upt_rec para_def)
  apply (simp add: header_eval)
  done

lemma ranked_headers_slide_all_large:
  "ranked_slide_headers 14 3 slide_all_large =
     [u ''Roadmap'', u ''Goals for the year'', u ''Markets'']"
  unfolding ranked_slide_headers_def sort_slide_all_large
  apply (simp add: slide_all_large_def enumerate_eq_zip upt_rec para_def)
  apply (simp add: header_eval)
  done

lemma bullet_without_space_headers:
  "is_header 14 3 4 bullet_without_space = False"
  "ranked_is_header 14 3 5 bullet_without_space = True"
  by (simp_all add: bullet_without_space_def para_def header_eval)

text \<open>
  C8. The paragraphs of a slide are sorted by vertical position with a stable sort (the
  sorted list has the same paragraphs, tops in ascending order, paragraphs of equal top in
  their original order). The headers are the texts, in that order, of the positions \<open>i\<close>
  of the sorted list, counted from 0, at which either \<open>i\<close> is at most \<open>min_header_rank\<close>
  and the font size at least \<open>min_header_fontsize\<close>, or \<open>i\<close> is larger and the text starts
  with digits followed by a dot or white space, or with one of the four bullet glyphs
  followed by a space. For five paragraphs whose font sizes in sorted order are
  20, 20, 10, 10, 10, rank 3 and size 14, the headers are the first two paragraphs, and the
  fifth one exactly when its text has such a prefix; a paragraph at a position above
  \<open>min_header_rank\<close> whose text starts with \<^verbatim>\<open>2. \<close> is a header whatever its font size.
\<close>

theorem slide_headers_classification:
  "sorted (map para_top (sort_key para_top ps)) \<and>
   set (sort_key para_top ps) = set ps \<and> length (sort_key para_top ps) = length ps \<and>
   filter (\<lambda>x. para_top x = y) (sort_key para_top ps) = filter (\<lambda>x. para_top x = y) ps \<and>
   slide_headers fs rk ps =
     map (\<lambda>i. para_text (sort_key para_top ps ! i))
       (filter (\<lambda>i.
           (int i \<le> rk \<and> font_size (sort_key para_top ps ! i) \<ge> real_of_int fs) \<or>
           (int i > rk \<and>
            (re_match numbered_prefix (para_text (sort_key para_top ps ! i)) \<or>
             (\<exists>g \<in> set [8226, 45, 9702, 9642].
                startswith (para_text (sort_key para_top ps ! i)) [g, 32]))))
          [0..<length ps]) \<and>
   (length ps = 5 \<and> map font_size (sort_key para_top ps) = [20, 20, 10, 10, 10] \<longrightarrow>
      slide_headers 14 3 ps = map para_text (take 2 (sort_key para_top ps)) @
        (if re_match numbered_prefix (para_text (sort_key para_top ps ! 4)) \<or>
            list_ex (startswith (para_text (sort_key para_top ps ! 4))) bullet_prefixes
         then [para_text (sort_key para_top ps ! 4)] else [])) \<and>
   (i < length ps \<and> rk < int i \<and>
      startswith (para_text (sort_key para_top ps ! i)) (u ''2. '') \<longrightarrow>
      para_text (sort_key para_top ps ! i) \<in> set (slide_headers fs rk ps))"
proof (intro conjI impI)
  show "sorted (map para_top (sort_key para_top ps))" by (rule sorted_sort_key)
  show "set (sort_key para_top ps) = set ps" by (rule set_sort)
  show "length (sort_key para_top ps) = length ps" by (rule length_sort)
  show "filter (\<lambda>x. para_top x = y) (sort_key para_top ps) = filter (\<lambda>x. para_top x = y) ps"
    by (rule sort_key_stable)
  have "\<And>t. list_ex (startswith t) bullet_prefixes =
      (\<exists>g \<in> set [8226, 45, 9702, 9642]. startswith t [g, 32])"
    by (simp add: bullet_prefixes_def)
  then show "slide_headers fs rk ps =
     map (\<lambda>i. para_text (sort_key para_top ps ! i))
       (filter (\<lambda>i.
           (int i \<le> rk \<and> font_size (sort_key para_top ps ! i) \<ge> real_of_int fs) \<or>
           (int i > rk \<and>
            (re_match numbered_prefix (para_text (sort_key para_top ps ! i)) \<or>
             (\<exists>g \<in> set [8226, 45, 9702, 9642].
                startswith (para_text (sort_key para_top ps ! i)) [g, 32]))))
          [0..<length ps])"
    unfolding slide_headers_positions is_header_iff by simp
next
  assume "length ps = 5 \<and> map font_size (sort_key para_top ps) = [20, 20, 10, 10, 10]"
  then show "slide_headers 14 3 ps = map para_text (take 2 (sort_key para_top ps)) @
        (if re_match numbered_prefix (para_text (sort_key para_top ps ! 4)) \<or>
            list_ex (startswith (para_text (sort_key para_top ps ! 4))) bullet_prefixes
         then [para_text (sort_key para_top ps ! 4)] else [])"
    by (elim conjE) (rule slide_headers_five)
next
  assume "i < length ps \<and> rk < int i \<and>
      startswith (para_text (sort_key para_top ps ! i)) (u ''2. '')"
  then show "para_text (sort_key para_top ps ! i) \<in> set (slide_headers fs rk ps)"
    by (elim conjE) (rule slide_headers_later_two)
qed

theorem slide_headers_classification_witness:
  "sort_key para_top slide_unsorted =
     [para (u ''Roadmap'') 10 20, para (u ''Goals for the year'') 20 20,
      para (u ''first item'') 30 10, para (u ''second item'') 40 10,
      para (u ''2. Plan'') 50 10] \<and>
   slide_headers 14 3 slide_unsorted = [u ''Roadmap'', u ''Goals for the year'', u ''2. Plan'']"
  using slide_headers_classification[where ps = slide_unsorted and y = 30 and fs = 14
      and rk = 3 and i = 4] sort_slide_unsorted headers_slide_unsorted
  by simp

text \<open>
  With ranks counted from 1, the fourth of five paragraphs of size 20 has rank 4, above
  \<open>min_header_rank = 3\<close>, and no list prefix; the extractor makes it a header all the same,
  because it compares the position counted from 0. A later paragraph that starts with a
  bullet glyph not followed by a space is not a header.
\<close>

theorem slide_headers_rank_counterexample:
  "slide_headers 14 3 slide_all_large =
     [u ''Roadmap'', u ''Goals for the year'', u ''Markets'', u ''Products''] \<and>
   ranked_slide_headers 14 3 slide_all_large =
     [u ''Roadmap'', u ''Goals for the year'', u ''Markets''] \<and>
   is_header 14 3 4 bullet_without_space = False \<and>
   ranked_is_header 14 3 5 bullet_without_space = True"
  using headers_slide_all_large ranked_headers_slide_all_large bullet_without_space_headers
  by blast

section \<open>Properties of the summarization pipeline\<close>

lemma call_error_length:
  "length (call_ollama_for_summarization RequestException) = 18"
  "length (call_ollama_for_summarization OtherException) = 20"
  by (simp_all add: call_ollama_for_summarization_def u_def)

lemma llm_loop_unfold:
  "llm_loop post =
     (if length (call_ollama_for_summarization (post 0)) \<ge> 100
      then (call_ollama_for_summarization (post 0), 1)
      else if length (call_ollama_for_summarization (post 1)) \<ge> 100
      then (call_ollama_for_summarization (post 1), 2)
      else (call_ollama_for_summarization (post 2), 3))"
proof -
  have n: "\<And>xs :: ustring. (xs \<noteq> [] \<and> 100 \<le> length xs) = (100 \<le> length xs)" by auto
  have r3: "\<And>c l. retry_loop post (Suc (Suc (Suc 0))) c l = (l, c)"
    by (subst retry_loop.simps) (simp add: max_retries_def)
  show ?thesis
    unfolding llm_loop_def
    apply (subst retry_loop.simps, simp only: n)
    apply (subst retry_loop.simps, simp only: n)
    apply (subst retry_loop.simps, simp only: n)
    apply (simp add: max_retries_def r3 numeral_3_eq_3 numeral_2_eq_2)
    done
qed

lemma llm_loop_calls:
  "1 \<le> snd (llm_loop post) \<and> snd (llm_loop post) \<le> 3 \<and>
   fst (llm_loop post) = call_ollama_for_summarization (post (snd (llm_loop post) - 1)) \<and>
   (snd (llm_loop post) < 3 \<longrightarrow> length (fst (llm_loop post)) \<ge> 100) \<and>
   (\<forall>k. k + 1 < snd (llm_loop post) \<longrightarrow>
      length (call_ollama_for_summarization (post k)) < 100)"
  unfolding llm_loop_unfold
  by (auto simp: less_Suc_eq numeral_2_eq_2 numeral_3_eq_3)

lemma llm_loop_after_failure:
  assumes "k < snd (llm_loop post)" "k < 2"
    and "post k = RequestException \<or> post k = OtherException"
  shows "k + 1 < snd (llm_loop post)"
proof -
  have s: "length (call_ollama_for_summarization (post k)) < 100"
    using assms(3) call_error_length by auto
  from assms(2) have "k = 0 \<or> k = 1" by auto
  then show ?thesis using assms(1) s unfolding llm_loop_unfold
    by (auto split: if_splits)
qed

text \<open>
  C6. The loop calls the collaborator at least once and at most three times. The text it
  ends with is the one returned by the last call; every earlier call returned a text of
  fewer than 100 characters, and when fewer than three calls were made the last text has
  at least 100 characters. A call that fails, at the transport level or otherwise, returns
  a tag of 18 or 20 characters, so it is followed by another call unless it was the third.
\<close>

theorem llm_loop_retries:
  "1 \<le> snd (llm_loop post) \<and> snd (llm_loop post) \<le> 3 \<and>
   fst (llm_loop post) = call_ollama_for_summarization (post (snd (llm_loop post) - 1)) \<and>
   (snd (llm_loop post) < 3 \<longrightarrow> length (fst (llm_loop post)) \<ge> 100) \<and>
   (\<forall>k. k + 1 < snd (llm_loop post) \<longrightarrow>
      length (call_ollama_for_summarization (post k)) < 100) \<and>
   (\<forall>k. k < snd (llm_loop post) \<and> k < 2 \<and>
        (post k = RequestException \<or> post k = OtherException) \<longrightarrow>
      k + 1 < snd (llm_loop post))"
  using llm_loop_calls[of post] llm_loop_after_failure[of _ post] by blast

theorem llm_loop_retries_witness:
  "llm_loop fails_once = (sample_response, 2)"
  using llm_loop_retries[of fails_once]
  by (simp add: llm_loop_unfold fails_once_def call_ollama_for_summarization_def
      sample_response_def strip_def isspace_def u_def)

text \<open>
  When every call fails at the transport level, the collaborator is called three times:
  the first and the second failed call are each followed by another call.
\<close>

theorem llm_loop_transport_failure_retried:
  "llm_loop transport_down = (u ''http_request_error'', 3)"
  by (simp add: llm_loop_unfold transport_down_def call_ollama_for_summarization_def u_def)

section \<open>Properties of the response parser\<close>



lemma getitem_error: "getitem info key = Inl e \<Longrightarrow> e = KeyError \<or> e = TypeError"
  by (cases info) (auto split: option.splits)


lemmas summarize_unfold = summarize_file_by_llm_def try_body_def Let_def





lemma summarize_sample_response:
  "summarize_file_by_llm fails_once sample_json_loads (u ''report.pdf'') =
     Inr (u ''valid_output'', Some (JList [JStr (u ''revenue''), JStr (u ''stores'')]),
          Some sample_summary)"
  by (simp add: summarize_unfold llm_loop_unfold fails_once_def
      call_ollama_for_summarization_def summary_only_def sample_response_def
      sample_json_loads_def sample_summary_def strip_def isspace_def replace_def
      search_braces_def u_def)




end
